theory Spec2Isabelle
  imports Main "HOL-Library.Word"
begin

unbundle bit_operations_syntax

section \<open>Data model of the native POSIX counter driver\<close>

text \<open>
  The driver (\<^verbatim>\<open>drivers/counter/counter_native_posix.c\<close>) keeps its state in file-level
  statics and talks to a simulated free-running 32-bit hardware counter. Ticks are
  \<^verbatim>\<open>uint32_t\<close>, so all tick arithmetic wraps modulo \<open>2 ^ 32\<close>; the channel index is a
  \<^verbatim>\<open>uint8_t\<close>. Function pointers and the opaque \<^verbatim>\<open>user_data\<close> pointers are addresses; a
  \<^verbatim>\<open>NULL\<close> callback is \<open>None\<close>.
\<close>

type_synonym u32 = "32 word"
type_synonym u8 = "8 word"
type_synonym fnptr = nat

text \<open>\<^verbatim>\<open>struct counter_top_cfg\<close> and \<^verbatim>\<open>struct counter_alarm_cfg\<close>, fields in declaration order.\<close>

record counter_top_cfg =
  top_ticks :: u32
  top_callback :: "fnptr option"
  top_user_data :: nat
  top_flags :: u32

record counter_alarm_cfg =
  alarm_callback :: "fnptr option"
  alarm_ticks :: u32
  alarm_user_data :: nat
  alarm_flags :: u32

text \<open>
  What leaves the driver: a user callback being called (with its arguments), and the two
  writing calls into the hardware model. The trace records them in program order.
\<close>

datatype call = TopCall fnptr nat | AlarmCall fnptr u8 u32 nat

datatype event = Called call | HwSetTarget u32 | HwReset

text \<open>
  The statics of the driver (\<^verbatim>\<open>pending_alarm\<close>, \<^verbatim>\<open>is_alarm_pending\<close>, \<^verbatim>\<open>top\<close>,
  \<^verbatim>\<open>is_top_set\<close>, \<^verbatim>\<open>last_top\<close>, \<^verbatim>\<open>next_top\<close>) together with the state of the hardware
  counter the driver reads and writes, the mask bit of the counter interrupt line, and the
  trace. The static \<^verbatim>\<open>top\<close> is named \<open>top_cfg\<close> here. The static \<^verbatim>\<open>device\<close> is written
  once at initialisation and only handed to callbacks; it is left out.
\<close>

record driver =
  pending_alarm :: counter_alarm_cfg
  is_alarm_pending :: bool
  top_cfg :: counter_top_cfg
  is_top_set :: bool
  last_top :: u32
  next_top :: u32
  hw_value :: u32
  hw_target :: u32
  hw_started :: bool
  irq_enabled :: bool
  trace :: "event list"

datatype errno = EBUSY | ENOTSUP | EINVAL | ETIME

text \<open>An \<^verbatim>\<open>int\<close> status: \<open>Inr ()\<close> is the return value 0, \<open>Inl e\<close> is \<^verbatim>\<open>-e\<close>.\<close>

type_synonym status = "errno + unit"

section \<open>Constants\<close>

definition TOP_VALUE :: u32 where
  "TOP_VALUE = 4294967295"

definition DRIVER_CONFIG_INFO_CHANNELS :: u8 where
  "DRIVER_CONFIG_INFO_CHANNELS = 1"

text \<open>
  The header \<^verbatim>\<open>zephyr/drivers/counter.h\<close> with the flag masks is not among the sources.
  The driver tests each flag with a bitwise and; the properties below never depend on the value
  of a mask, only the example states do.
\<close>

text \<open>
  Modelled from the spec: the "don't reset" flag of a top configuration; the mask of
  \<^verbatim>\<open>counter.h\<close> is missing. Bit 0.
\<close>

definition COUNTER_TOP_CFG_DONT_RESET :: u32 where
  "COUNTER_TOP_CFG_DONT_RESET = 1"

text \<open>
  Modelled from the spec: the "reset-when-late" flag of a top configuration; the mask of
  \<^verbatim>\<open>counter.h\<close> is missing. Bit 1.
\<close>

definition COUNTER_TOP_CFG_RESET_WHEN_LATE :: u32 where
  "COUNTER_TOP_CFG_RESET_WHEN_LATE = 2"

text \<open>
  Modelled from the spec: the flag that marks the tick of an alarm request as absolute
  rather than relative; the mask of \<^verbatim>\<open>counter.h\<close> is missing. Bit 0.
\<close>

definition COUNTER_ALARM_CFG_ABSOLUTE :: u32 where
  "COUNTER_ALARM_CFG_ABSOLUTE = 1"

text \<open>The macro \<^verbatim>\<open>MIN(a, b)\<close>, which is \<^verbatim>\<open>((a) < (b)) ? (a) : (b)\<close>: a raw magnitude comparison.\<close>

definition MIN_u32 :: "u32 \<Rightarrow> u32 \<Rightarrow> u32" where
  "MIN_u32 a b = (if a < b then a else b)"

section \<open>The hardware counter\<close>

text \<open>
  The simulated counter of \<^verbatim>\<open>hw_counter.h\<close> and \<^verbatim>\<open>irq_enable\<close> are not among the sources;
  the specification lists what the driver needs of them. The register and the target are the
  fields \<open>hw_value\<close> and \<open>hw_target\<close> of the state.
\<close>

text \<open>
  Modelled from the spec: \<^verbatim>\<open>hw_counter_get_value\<close> is missing; \<^verbatim>\<open>get_value() -> u32\<close> returns
  the register snapshot, without side effects.
\<close>

definition hw_counter_get_value :: "driver \<Rightarrow> u32" where
  "hw_counter_get_value s = hw_value s"

text \<open>
  Modelled from the spec: \<^verbatim>\<open>hw_counter_set_target\<close> is missing; \<^verbatim>\<open>set_target(u32)\<close> sets the
  single comparator, the value at which the match interrupt is raised.
\<close>

definition hw_counter_set_target :: "u32 \<Rightarrow> driver \<Rightarrow> driver" where
  "hw_counter_set_target t s = s\<lparr>hw_target := t, trace := trace s @ [HwSetTarget t]\<rparr>"

text \<open>
  Modelled from the spec: \<^verbatim>\<open>hw_counter_reset\<close> is missing; \<^verbatim>\<open>reset()\<close> sets the register
  to 0.
\<close>

definition hw_counter_reset :: "driver \<Rightarrow> driver" where
  "hw_counter_reset s = s\<lparr>hw_value := 0, trace := trace s @ [HwReset]\<rparr>"

text \<open>
  Modelled from the spec: \<^verbatim>\<open>hw_counter_is_started\<close> is missing; \<^verbatim>\<open>is_started() -> bool\<close>
  tells whether the hardware is currently running.
\<close>

definition hw_counter_is_started :: "driver \<Rightarrow> bool" where
  "hw_counter_is_started s = hw_started s"

text \<open>
  Modelled from the spec: \<^verbatim>\<open>hw_counter_start\<close> is missing; \<^verbatim>\<open>start()\<close> lets the counter run.
\<close>

definition hw_counter_start :: "driver \<Rightarrow> driver" where
  "hw_counter_start s = s\<lparr>hw_started := True\<rparr>"

text \<open>
  Modelled from the spec: \<^verbatim>\<open>hw_counter_stop\<close> is missing; \<^verbatim>\<open>stop()\<close> halts the counter.
\<close>

definition hw_counter_stop :: "driver \<Rightarrow> driver" where
  "hw_counter_stop s = s\<lparr>hw_started := False\<rparr>"

text \<open>
  Modelled from the spec: \<^verbatim>\<open>irq_enable\<close> is missing; the configuration operations use it
  to unmask the match interrupt.
\<close>

definition irq_enable :: "driver \<Rightarrow> driver" where
  "irq_enable s = s\<lparr>irq_enabled := True\<rparr>"

section \<open>User callbacks\<close>

text \<open>
  A callback is code of the application: it may call back into the driver. Its effect is a
  parameter \<open>run\<close> of the interrupt handler, a state transformer for each call; the
  handler records the call in the trace and then lets it run.
\<close>

type_synonym user_code = "call \<Rightarrow> driver \<Rightarrow> driver"

definition invoke :: "user_code \<Rightarrow> call \<Rightarrow> driver \<Rightarrow> driver" where
  "invoke run c s = run c (s\<lparr>trace := trace s @ [Called c]\<rparr>)"

text \<open>Callbacks that only observe: they leave the driver and the hardware as they are.\<close>

definition quiet :: user_code where
  "quiet c s = s"

section \<open>The interrupt handler \<^verbatim>\<open>counter_isr\<close>\<close>

text \<open>
  The handler reads the counter once and then runs three \<^verbatim>\<open>if\<close> statements in sequence
  against that snapshot \<open>v\<close>. Each of them is one function here, in source order.
\<close>

definition isr_top_check :: "user_code \<Rightarrow> u32 \<Rightarrow> driver \<Rightarrow> driver" where
  "isr_top_check run v s =
     (if is_top_set s \<and> v = last_top s + top_ticks (top_cfg s) then
        let s1 = (case top_callback (top_cfg s) of
                    None \<Rightarrow> s
                  | Some f \<Rightarrow> invoke run (TopCall f (top_user_data (top_cfg s))) s);
            s2 = s1\<lparr>last_top := v\<rparr>;
            s3 = s2\<lparr>next_top := v + top_ticks (top_cfg s2)\<rparr>
        in if next_top s3 < last_top s3
           then hw_counter_set_target TOP_VALUE s3
           else hw_counter_set_target (next_top s3) s3
      else s)"

definition isr_alarm_check :: "user_code \<Rightarrow> u32 \<Rightarrow> driver \<Rightarrow> driver" where
  "isr_alarm_check run v s =
     (if is_alarm_pending s \<and> v = alarm_ticks (pending_alarm s) then
        let s1 = s\<lparr>is_alarm_pending := False\<rparr>
        in (case alarm_callback (pending_alarm s1) of
              None \<Rightarrow> s1
            | Some f \<Rightarrow> invoke run (AlarmCall f 0 v (alarm_user_data (pending_alarm s1))) s1)
      else s)"

definition isr_rollover_check :: "u32 \<Rightarrow> driver \<Rightarrow> driver" where
  "isr_rollover_check v s =
     (if v = TOP_VALUE then
        let s1 = hw_counter_reset s
        in if is_alarm_pending s1 \<and> is_top_set s1
           then hw_counter_set_target (MIN_u32 (alarm_ticks (pending_alarm s1)) (next_top s1)) s1
           else if is_alarm_pending s1
           then hw_counter_set_target (alarm_ticks (pending_alarm s1)) s1
           else if is_top_set s1
           then hw_counter_set_target (next_top s1) s1
           else hw_counter_set_target TOP_VALUE s1
      else s)"

text \<open>The body of the handler for a snapshot \<open>v\<close>, and the handler itself.\<close>

definition isr_body :: "user_code \<Rightarrow> u32 \<Rightarrow> driver \<Rightarrow> driver" where
  "isr_body run v s = isr_rollover_check v (isr_alarm_check run v (isr_top_check run v s))"

definition counter_isr :: "user_code \<Rightarrow> driver \<Rightarrow> driver" where
  "counter_isr run s = isr_body run (hw_counter_get_value s) s"

section \<open>The driver API\<close>

text \<open>
  \<^verbatim>\<open>ctr_init\<close>; connecting the interrupt and setting the tick period do not touch the state
  modelled here. Warnings printed with \<^verbatim>\<open>posix_print_warning\<close> are diagnostics and are
  not modelled.
\<close>

definition ctr_init :: "driver \<Rightarrow> status \<times> driver" where
  "ctr_init s =
     (Inr (), hw_counter_set_target TOP_VALUE (s\<lparr>is_alarm_pending := False, is_top_set := False\<rparr>))"

definition ctr_start :: "driver \<Rightarrow> status \<times> driver" where
  "ctr_start s = (Inr (), hw_counter_start s)"

definition ctr_stop :: "driver \<Rightarrow> status \<times> driver" where
  "ctr_stop s = (Inr (), hw_counter_stop s)"

definition ctr_get_value :: "driver \<Rightarrow> status \<times> u32" where
  "ctr_get_value s = (Inr (), hw_counter_get_value s)"

definition ctr_get_top_value :: "driver \<Rightarrow> u32" where
  "ctr_get_top_value s = top_ticks (top_cfg s)"

text \<open>
  \<^verbatim>\<open>ctr_set_top_value\<close>. The part after the reset decision (storing the configuration and
  arming the target) is \<open>store_top\<close>; \<open>v\<close> is the value read before any reset.
\<close>

definition store_top :: "counter_top_cfg \<Rightarrow> u32 \<Rightarrow> driver \<Rightarrow> status \<times> driver" where
  "store_top cfg v s =
     (let s1 = s\<lparr>top_cfg := cfg\<rparr>;
          s2 = s1\<lparr>last_top := v\<rparr>
      in if top_ticks cfg \<noteq> TOP_VALUE \<and> top_callback cfg \<noteq> None
         then (Inr (), irq_enable (hw_counter_set_target (v + top_ticks cfg) (s2\<lparr>is_top_set := True\<rparr>)))
         else (Inr (), s2\<lparr>is_top_set := False\<rparr>))"

definition ctr_set_top_value :: "counter_top_cfg \<Rightarrow> driver \<Rightarrow> status \<times> driver" where
  "ctr_set_top_value cfg s =
     (if is_alarm_pending s then (Inl EBUSY, s)
      else
        let v = hw_counter_get_value s
        in if top_flags cfg AND COUNTER_TOP_CFG_DONT_RESET \<noteq> 0 then
             if v \<ge> top_ticks cfg then
               (Inl ETIME,
                if top_flags cfg AND COUNTER_TOP_CFG_RESET_WHEN_LATE \<noteq> 0
                then hw_counter_reset s else s)
             else store_top cfg v s
           else store_top cfg v (hw_counter_reset s))"

text \<open>
  \<^verbatim>\<open>ctr_set_alarm\<close>. The normalisation of the requested tick (a relative request has
  the current value added, wrapping) is \<open>absolute_ticks\<close>.
\<close>

definition absolute_ticks :: "counter_alarm_cfg \<Rightarrow> u32 \<Rightarrow> u32" where
  "absolute_ticks alarm_cfg current_value =
     (if alarm_flags alarm_cfg AND COUNTER_ALARM_CFG_ABSOLUTE = 0
      then alarm_ticks alarm_cfg + current_value
      else alarm_ticks alarm_cfg)"

definition ctr_set_alarm :: "u8 \<Rightarrow> counter_alarm_cfg \<Rightarrow> driver \<Rightarrow> status \<times> driver" where
  "ctr_set_alarm chan_id alarm_cfg s =
     (if chan_id \<ge> DRIVER_CONFIG_INFO_CHANNELS then (Inl ENOTSUP, s)
      else if is_alarm_pending s then (Inl EBUSY, s)
      else
        let current_value = hw_counter_get_value s;
            ticks = absolute_ticks alarm_cfg current_value
        in if is_top_set s \<and> ticks - current_value > top_ticks (top_cfg s) - current_value
           then (Inl EINVAL, s)
           else
             let s1 = s\<lparr>pending_alarm := alarm_cfg\<rparr>;
                 s2 = s1\<lparr>pending_alarm := (pending_alarm s1)\<lparr>alarm_ticks := ticks\<rparr>\<rparr>;
                 s3 = s2\<lparr>is_alarm_pending := True\<rparr>;
                 s4 = (if TOP_VALUE - current_value < ticks - current_value
                       then hw_counter_set_target TOP_VALUE s3
                       else hw_counter_set_target (alarm_ticks (pending_alarm s3)) s3)
             in (Inr (), irq_enable s4))"

text \<open>\<^verbatim>\<open>ctr_cancel_alarm\<close>.\<close>

definition ctr_cancel_alarm :: "u8 \<Rightarrow> driver \<Rightarrow> status \<times> driver" where
  "ctr_cancel_alarm chan_id s =
     (if chan_id \<ge> DRIVER_CONFIG_INFO_CHANNELS then (Inl ENOTSUP, s)
      else if \<not> hw_counter_is_started s then (Inl ENOTSUP, s)
      else (Inr (), s\<lparr>is_alarm_pending := False\<rparr>))"

section \<open>Notions used by the properties\<close>

text \<open>
  The wraparound distance from \<open>v\<close> to \<open>x\<close>: the number of ticks the counter needs
  to get from \<open>v\<close> to \<open>x\<close>, that is \<open>(x - v) mod 2 ^ 32\<close>.
\<close>

definition dist :: "u32 \<Rightarrow> u32 \<Rightarrow> u32" where
  "dist v x = x - v"




text \<open>The values written to the target register, and the callbacks called, in a trace.\<close>

fun target_writes :: "event list \<Rightarrow> u32 list" where
  "target_writes [] = []"
| "target_writes (HwSetTarget t # es) = t # target_writes es"
| "target_writes (e # es) = target_writes es"

fun calls :: "event list \<Rightarrow> call list" where
  "calls [] = []"
| "calls (Called c # es) = c # calls es"
| "calls (e # es) = calls es"

text \<open>The conditions under which the handler fires the top, respectively the alarm, at \<open>v\<close>.\<close>

definition top_fires :: "u32 \<Rightarrow> driver \<Rightarrow> bool" where
  "top_fires v s = (is_top_set s \<and> v = last_top s + top_ticks (top_cfg s))"

definition alarm_fires :: "u32 \<Rightarrow> driver \<Rightarrow> bool" where
  "alarm_fires v s = (is_alarm_pending s \<and> v = alarm_ticks (pending_alarm s))"

text \<open>
  The state in which the top callback of the handler returns: the state itself if the
  pointer is \<^verbatim>\<open>NULL\<close>, and what the callback makes of it otherwise.
\<close>

definition after_top_callback :: "user_code \<Rightarrow> driver \<Rightarrow> driver" where
  "after_top_callback run s =
     (case top_callback (top_cfg s) of
        None \<Rightarrow> s
      | Some f \<Rightarrow> invoke run (TopCall f (top_user_data (top_cfg s))) s)"

text \<open>The calls the handler makes when the top, respectively the alarm, fires.\<close>

definition top_calls :: "driver \<Rightarrow> call list" where
  "top_calls s =
     (case top_callback (top_cfg s) of
        None \<Rightarrow> []
      | Some f \<Rightarrow> [TopCall f (top_user_data (top_cfg s))])"

definition alarm_calls :: "u32 \<Rightarrow> driver \<Rightarrow> call list" where
  "alarm_calls v s =
     (case alarm_callback (pending_alarm s) of
        None \<Rightarrow> []
      | Some f \<Rightarrow> [AlarmCall f 0 v (alarm_user_data (pending_alarm s))])"

section \<open>Example states\<close>

text \<open>
  The statics are zero at program start. \<open>counts_to v\<close> lets the free-running counter
  reach the value \<open>v\<close>.
\<close>

definition power_on :: driver where
  "power_on =
     \<lparr>pending_alarm = \<lparr>alarm_callback = None, alarm_ticks = 0, alarm_user_data = 0, alarm_flags = 0\<rparr>,
      is_alarm_pending = False,
      top_cfg = \<lparr>top_ticks = 0, top_callback = None, top_user_data = 0, top_flags = 0\<rparr>,
      is_top_set = False, last_top = 0, next_top = 0,
      hw_value = 0, hw_target = 0, hw_started = False, irq_enabled = False, trace = []\<rparr>"

definition counts_to :: "u32 \<Rightarrow> driver \<Rightarrow> driver" where
  "counts_to v s = s\<lparr>hw_value := v\<rparr>"

definition running :: driver where
  "running = snd (ctr_start (snd (ctr_init power_on)))"

definition top100 :: counter_top_cfg where
  "top100 = \<lparr>top_ticks = 100, top_callback = Some 1, top_user_data = 7, top_flags = 0\<rparr>"

text \<open>A top of period 100 set at value 0, and the same after its first event at 100.\<close>

definition with_top :: driver where
  "with_top = snd (ctr_set_top_value top100 running)"

definition after_first_top :: driver where
  "after_first_top = counter_isr quiet (counts_to 100 with_top)"

definition alarm_at :: "u32 \<Rightarrow> counter_alarm_cfg" where
  "alarm_at t =
     \<lparr>alarm_callback = Some 2, alarm_ticks = t, alarm_user_data = 9,
      alarm_flags = COUNTER_ALARM_CFG_ABSOLUTE\<rparr>"

text \<open>An alarm for the absolute tick 50 requested at value 10, with the top active.\<close>

definition with_alarm :: driver where
  "with_alarm = snd (ctr_set_alarm 0 (alarm_at 50) (counts_to 10 with_top))"

text \<open>
  An alarm for tick 100, where the first top event is due as well, and the counter there.
\<close>

definition alarm_on_top :: driver where
  "alarm_on_top = counts_to 100 (snd (ctr_set_alarm 0 (alarm_at 100) (counts_to 10 with_top)))"

text \<open>
  After the first top event: an alarm for tick 50 of the next lap, requested at value 120,
  and the counter at \<^verbatim>\<open>TOP_VALUE\<close>.
\<close>

definition before_rollover :: driver where
  "before_rollover =
     counts_to TOP_VALUE (snd (ctr_set_alarm 0 (alarm_at 50) (counts_to 120 after_first_top)))"

text \<open>
  Callbacks that call back into the driver: a top callback that cancels the alarm, and a
  top callback that sets a new top of period 30.
\<close>

definition cancelling :: user_code where
  "cancelling c s =
     (case c of TopCall f u \<Rightarrow> snd (ctr_cancel_alarm 0 s) | AlarmCall f ch t u \<Rightarrow> s)"

definition top30 :: counter_top_cfg where
  "top30 = \<lparr>top_ticks = 30, top_callback = Some 1, top_user_data = 7, top_flags = 0\<rparr>"

definition retuning :: user_code where
  "retuning c s =
     (case c of TopCall f u \<Rightarrow> snd (ctr_set_top_value top30 s) | AlarmCall f ch t u \<Rightarrow> s)"

text \<open>
  A top of period 4294967290 set at value 10 without a reset, so that its first event is due
  at tick 4 of the next lap; then an alarm for tick 2 of the next lap, requested at value
  4294967292; then the counter at \<^verbatim>\<open>TOP_VALUE\<close>. No top event has fired yet.
\<close>

definition top_wrapping :: counter_top_cfg where
  "top_wrapping =
     \<lparr>top_ticks = 4294967290, top_callback = Some 1, top_user_data = 7,
      top_flags = COUNTER_TOP_CFG_DONT_RESET\<rparr>"

definition stale_rollover :: driver where
  "stale_rollover =
     counts_to TOP_VALUE
       (snd (ctr_set_alarm 0 (alarm_at 2)
          (counts_to 4294967292 (snd (ctr_set_top_value top_wrapping (counts_to 10 running))))))"

text \<open>A top of period 5 that must not reset the counter, without and with reset-when-late.\<close>

definition late_top :: "u32 \<Rightarrow> counter_top_cfg" where
  "late_top fl = \<lparr>top_ticks = 5, top_callback = Some 1, top_user_data = 7, top_flags = fl\<rparr>"

section \<open>Auxiliary facts\<close>

lemmas hw_defs = hw_counter_get_value_def hw_counter_set_target_def hw_counter_reset_def
  hw_counter_is_started_def hw_counter_start_def hw_counter_stop_def irq_enable_def

lemmas isr_defs = counter_isr_def isr_body_def isr_top_check_def isr_alarm_check_def
  isr_rollover_check_def invoke_def quiet_def


subsection \<open>Words and distances\<close>

text \<open>
  \<^verbatim>\<open>TOP_VALUE\<close> is the largest 32-bit value, and the distance is the difference modulo
  \<open>2 ^ 32\<close>.
\<close>

lemma TOP_VALUE_max: "TOP_VALUE = - 1"
  by (simp add: TOP_VALUE_def)


lemma dist_uint: "uint (dist v x) = (uint x - uint v) mod 2 ^ 32"
  by (simp add: dist_def uint_word_ariths)




lemma succ_mono: "a \<noteq> - 1 \<Longrightarrow> n \<noteq> - 1 \<Longrightarrow> (a + 1 \<le> n + 1) \<longleftrightarrow> (a \<le> (n::u32))"
proof -
  assume a: "a \<noteq> - 1" and n: "n \<noteq> - 1"
  have "1 + a \<noteq> 0" using a by (simp add: add_eq_0_iff)
  then have ua: "unat (a + 1) = Suc (unat a)" using unatSuc[of a] by (simp add: add.commute)
  have "1 + n \<noteq> 0" using n by (simp add: add_eq_0_iff)
  then have un: "unat (n + 1) = Suc (unat n)" using unatSuc[of n] by (simp add: add.commute)
  show ?thesis by (simp add: word_le_nat_alt ua un)
qed

lemma min_from_top:
  "a \<noteq> TOP_VALUE \<Longrightarrow> n \<noteq> TOP_VALUE \<Longrightarrow>
   TOP_VALUE + min (dist TOP_VALUE a) (dist TOP_VALUE n) = MIN_u32 a n"
  unfolding TOP_VALUE_max dist_def MIN_u32_def min_def
  using succ_mono[of a n] by auto



subsection \<open>Traces\<close>

lemma target_writes_append: "target_writes (xs @ ys) = target_writes xs @ target_writes ys"
  by (induction xs rule: target_writes.induct) simp_all

lemma calls_append: "calls (xs @ ys) = calls xs @ calls ys"
  by (induction xs rule: calls.induct) simp_all

lemma calls_Called: "calls (map Called cs) = cs"
  by (induction cs) simp_all

lemma target_writes_Called: "target_writes (map Called cs) = []"
  by (induction cs) simp_all

subsection \<open>The example states, computed\<close>

lemma running_state:
  "running = power_on\<lparr>hw_target := TOP_VALUE, hw_started := True, trace := [HwSetTarget TOP_VALUE]\<rparr>"
  by (simp add: running_def ctr_init_def ctr_start_def power_on_def hw_defs)

lemma with_top_state:
  "with_top = power_on\<lparr>top_cfg := top100, is_top_set := True, hw_target := 100,
     hw_started := True, irq_enabled := True,
     trace := [HwSetTarget TOP_VALUE, HwReset, HwSetTarget 100]\<rparr>"
  by (simp add: with_top_def running_state ctr_set_top_value_def store_top_def power_on_def
      top100_def hw_defs TOP_VALUE_def COUNTER_TOP_CFG_DONT_RESET_def)

lemma with_alarm_state:
  "with_alarm = with_top\<lparr>pending_alarm := alarm_at 50, is_alarm_pending := True,
     hw_value := 10, hw_target := 50,
     trace := [HwSetTarget TOP_VALUE, HwReset, HwSetTarget 100, HwSetTarget 50]\<rparr>"
  by (simp add: with_alarm_def with_top_state ctr_set_alarm_def absolute_ticks_def counts_to_def
      power_on_def top100_def alarm_at_def hw_defs TOP_VALUE_def DRIVER_CONFIG_INFO_CHANNELS_def
      COUNTER_ALARM_CFG_ABSOLUTE_def)

lemma after_first_top_state:
  "after_first_top = with_top\<lparr>last_top := 100, next_top := 200, hw_value := 100, hw_target := 200,
     trace := [HwSetTarget TOP_VALUE, HwReset, HwSetTarget 100, Called (TopCall 1 7), HwSetTarget 200]\<rparr>"
  by (simp add: after_first_top_def with_top_state counts_to_def isr_defs power_on_def top100_def
      hw_defs TOP_VALUE_def)

lemma alarm_on_top_state:
  "alarm_on_top = with_top\<lparr>pending_alarm := alarm_at 100, is_alarm_pending := True,
     hw_value := 100, hw_target := 100,
     trace := [HwSetTarget TOP_VALUE, HwReset, HwSetTarget 100, HwSetTarget 100]\<rparr>"
  by (simp add: alarm_on_top_def with_top_state ctr_set_alarm_def absolute_ticks_def counts_to_def
      power_on_def top100_def alarm_at_def hw_defs TOP_VALUE_def DRIVER_CONFIG_INFO_CHANNELS_def
      COUNTER_ALARM_CFG_ABSOLUTE_def)

lemma before_rollover_state:
  "before_rollover = after_first_top\<lparr>pending_alarm := alarm_at 50, is_alarm_pending := True,
     hw_value := TOP_VALUE, hw_target := TOP_VALUE,
     trace := [HwSetTarget TOP_VALUE, HwReset, HwSetTarget 100, Called (TopCall 1 7),
               HwSetTarget 200, HwSetTarget TOP_VALUE]\<rparr>"
  by (simp add: before_rollover_def after_first_top_state with_top_state ctr_set_alarm_def
      absolute_ticks_def counts_to_def power_on_def top100_def alarm_at_def hw_defs TOP_VALUE_def
      DRIVER_CONFIG_INFO_CHANNELS_def COUNTER_ALARM_CFG_ABSOLUTE_def)

lemma stale_rollover_state:
  "stale_rollover = running\<lparr>pending_alarm := alarm_at 2, is_alarm_pending := True,
     top_cfg := top_wrapping, is_top_set := True, last_top := 10,
     hw_value := TOP_VALUE, hw_target := TOP_VALUE, irq_enabled := True,
     trace := [HwSetTarget TOP_VALUE, HwSetTarget 4, HwSetTarget TOP_VALUE]\<rparr>"
  by (simp add: stale_rollover_def running_state ctr_set_top_value_def store_top_def
      ctr_set_alarm_def absolute_ticks_def counts_to_def power_on_def top_wrapping_def alarm_at_def
      hw_defs TOP_VALUE_def DRIVER_CONFIG_INFO_CHANNELS_def COUNTER_ALARM_CFG_ABSOLUTE_def
      COUNTER_TOP_CFG_DONT_RESET_def)

subsection \<open>The steps of the handler\<close>

text \<open>
  A step whose condition is false does nothing, whatever the callbacks do. Under
  callbacks that only observe (\<open>quiet\<close>), a step that fires is one record update.
\<close>

lemma top_check_idle: "\<not> top_fires v s \<Longrightarrow> isr_top_check run v s = s"
  unfolding isr_top_check_def top_fires_def by (rule if_not_P)

lemma top_check_quiet:
  assumes "top_fires v s"
  shows "isr_top_check quiet v s =
           s\<lparr>last_top := v, next_top := v + top_ticks (top_cfg s),
             hw_target := (if v + top_ticks (top_cfg s) < v then TOP_VALUE
                           else v + top_ticks (top_cfg s)),
             trace := trace s @ map Called (top_calls s) @
                      [HwSetTarget (if v + top_ticks (top_cfg s) < v then TOP_VALUE
                                    else v + top_ticks (top_cfg s))]\<rparr>"
proof (cases "top_callback (top_cfg s)")
  case None
  with assms show ?thesis
    by (simp add: isr_top_check_def top_fires_def top_calls_def hw_counter_set_target_def)
next
  case (Some f)
  with assms show ?thesis
    by (simp add: isr_top_check_def top_fires_def top_calls_def hw_counter_set_target_def
        invoke_def quiet_def)
qed

lemma top_check_last_top:
  "top_fires v s \<Longrightarrow> last_top (isr_top_check run v s) = v"
  by (simp add: isr_top_check_def top_fires_def hw_counter_set_target_def Let_def)

text \<open>Whatever the top callback does, the step stores the epoch after it has returned.\<close>

lemma top_check_general:
  assumes "top_fires v s"
  shows "next_top (isr_top_check run v s) = v + top_ticks (top_cfg (after_top_callback run s))"
    and "is_top_set (isr_top_check run v s) = is_top_set (after_top_callback run s)"
    and "top_cfg (isr_top_check run v s) = top_cfg (after_top_callback run s)"
  using assms
  by (simp_all add: isr_top_check_def top_fires_def after_top_callback_def
      hw_counter_set_target_def Let_def)

lemma alarm_check_idle: "\<not> alarm_fires v s \<Longrightarrow> isr_alarm_check run v s = s"
  unfolding isr_alarm_check_def alarm_fires_def by (rule if_not_P)

lemma alarm_check_quiet:
  assumes "alarm_fires v s"
  shows "isr_alarm_check quiet v s =
           s\<lparr>is_alarm_pending := False, trace := trace s @ map Called (alarm_calls v s)\<rparr>"
proof (cases "alarm_callback (pending_alarm s)")
  case None
  with assms show ?thesis
    by (simp add: isr_alarm_check_def alarm_fires_def alarm_calls_def)
next
  case (Some f)
  with assms show ?thesis
    by (simp add: isr_alarm_check_def alarm_fires_def alarm_calls_def invoke_def quiet_def)
qed

lemma rollover_check_idle: "v \<noteq> TOP_VALUE \<Longrightarrow> isr_rollover_check v s = s"
  by (simp add: isr_rollover_check_def)

lemma rollover_check_frame:
  "last_top (isr_rollover_check v s) = last_top s"
  "next_top (isr_rollover_check v s) = next_top s"
  "is_top_set (isr_rollover_check v s) = is_top_set s"
  "top_cfg (isr_rollover_check v s) = top_cfg s"
  "is_alarm_pending (isr_rollover_check v s) = is_alarm_pending s"
  "pending_alarm (isr_rollover_check v s) = pending_alarm s"
  "calls (trace (isr_rollover_check v s)) = calls (trace s)"
  by (simp_all add: isr_rollover_check_def hw_counter_set_target_def hw_counter_reset_def
      Let_def calls_append)

lemma rollover_check_top:
  "hw_value (isr_rollover_check TOP_VALUE s) = 0"
  "hw_target (isr_rollover_check TOP_VALUE s) =
     (if is_alarm_pending s \<and> is_top_set s
      then MIN_u32 (alarm_ticks (pending_alarm s)) (next_top s)
      else if is_alarm_pending s then alarm_ticks (pending_alarm s)
      else if is_top_set s then next_top s
      else TOP_VALUE)"
  by (simp_all add: isr_rollover_check_def hw_counter_set_target_def hw_counter_reset_def
      Let_def)

lemma alarm_check_frame:
  "last_top (isr_alarm_check quiet v s) = last_top s"
  "next_top (isr_alarm_check quiet v s) = next_top s"
  "is_top_set (isr_alarm_check quiet v s) = is_top_set s"
  "top_cfg (isr_alarm_check quiet v s) = top_cfg s"
  "pending_alarm (isr_alarm_check quiet v s) = pending_alarm s"
  "hw_target (isr_alarm_check quiet v s) = hw_target s"
  "hw_value (isr_alarm_check quiet v s) = hw_value s"
  "target_writes (trace (isr_alarm_check quiet v s)) = target_writes (trace s)"
  by (cases "alarm_fires v s";
      simp add: alarm_check_idle alarm_check_quiet target_writes_append target_writes_Called)+

lemma alarm_check_pending:
  "is_alarm_pending (isr_alarm_check quiet v s) \<longleftrightarrow> is_alarm_pending s \<and> \<not> alarm_fires v s"
  by (cases "alarm_fires v s") (simp_all add: alarm_check_idle alarm_check_quiet)

lemma alarm_check_calls:
  "calls (trace (isr_alarm_check quiet v s)) =
     calls (trace s) @ (if alarm_fires v s then alarm_calls v s else [])"
  by (cases "alarm_fires v s")
     (simp_all add: alarm_check_idle alarm_check_quiet calls_append calls_Called)

lemma top_check_frame:
  "is_top_set (isr_top_check quiet v s) = is_top_set s"
  "top_cfg (isr_top_check quiet v s) = top_cfg s"
  "pending_alarm (isr_top_check quiet v s) = pending_alarm s"
  "is_alarm_pending (isr_top_check quiet v s) = is_alarm_pending s"
  "hw_value (isr_top_check quiet v s) = hw_value s"
  by (cases "top_fires v s"; simp add: top_check_idle top_check_quiet)+

lemma top_check_epoch:
  "last_top (isr_top_check quiet v s) = (if top_fires v s then v else last_top s)"
  "next_top (isr_top_check quiet v s) =
     (if top_fires v s then v + top_ticks (top_cfg s) else next_top s)"
  by (cases "top_fires v s"; simp add: top_check_idle top_check_quiet)+

lemma top_check_calls:
  "calls (trace (isr_top_check quiet v s)) =
     calls (trace s) @ (if top_fires v s then top_calls s else [])"
  by (cases "top_fires v s")
     (simp_all add: top_check_idle top_check_quiet calls_append calls_Called)

lemma top_check_writes:
  "target_writes (trace (isr_top_check quiet v s)) =
     target_writes (trace s) @
       (if top_fires v s
        then [if v + top_ticks (top_cfg s) < v then TOP_VALUE else v + top_ticks (top_cfg s)]
        else [])"
  by (cases "top_fires v s")
     (simp_all add: top_check_idle top_check_quiet target_writes_append target_writes_Called)

lemma alarm_fires_after_top:
  "alarm_fires v (isr_top_check quiet w s) = alarm_fires v s"
  by (simp add: alarm_fires_def top_check_frame)

lemma alarm_calls_after_top:
  "alarm_calls v (isr_top_check quiet w s) = alarm_calls v s"
  by (simp add: alarm_calls_def top_check_frame split: option.splits)

lemma body_calls:
  "calls (trace (isr_body quiet v s)) =
     calls (trace s) @ (if top_fires v s then top_calls s else []) @
     (if alarm_fires v s then alarm_calls v s else [])"
  by (simp add: isr_body_def rollover_check_frame alarm_check_calls top_check_calls
      alarm_fires_after_top alarm_calls_after_top)

lemma body_pending:
  "is_alarm_pending (isr_body quiet v s) \<longleftrightarrow> is_alarm_pending s \<and> \<not> alarm_fires v s"
  by (simp add: isr_body_def rollover_check_frame alarm_check_pending top_check_frame
      alarm_fires_after_top)

lemma body_top:
  "is_top_set (isr_body quiet v s) = is_top_set s"
  "top_cfg (isr_body quiet v s) = top_cfg s"
  "last_top (isr_body quiet v s) = (if top_fires v s then v else last_top s)"
  "next_top (isr_body quiet v s) =
     (if top_fires v s then v + top_ticks (top_cfg s) else next_top s)"
  by (simp_all add: isr_body_def rollover_check_frame alarm_check_frame top_check_frame
      top_check_epoch)

subsection \<open>What each operation programs\<close>






section \<open>The epoch bound of \<^verbatim>\<open>ctr_set_alarm\<close>\<close>




section \<open>Which target the operations program\<close>




section \<open>Writes to the target away from \<^verbatim>\<open>TOP_VALUE\<close>\<close>

text \<open>
  C3 (as the driver has it). For a snapshot \<open>v \<noteq> TOP_VALUE\<close> and observing callbacks: the
  alarm check never writes the hardware target. The top check writes it exactly when the
  top fires, once, with \<open>v + P\<close>, or with \<^verbatim>\<open>TOP_VALUE\<close> when \<open>v + P\<close> wraps. The whole handler
  writes what the top check writes, so when the top does not fire the target stays as it
  was.
\<close>

theorem handler_target_writes_below_top:
  assumes "v \<noteq> TOP_VALUE"
  shows "target_writes (trace (isr_alarm_check quiet v s)) = target_writes (trace s) \<and>
         hw_target (isr_alarm_check quiet v s) = hw_target s \<and>
         target_writes (trace (isr_top_check quiet v s)) =
           target_writes (trace s) @
             (if top_fires v s
              then [if v + top_ticks (top_cfg s) < v then TOP_VALUE else v + top_ticks (top_cfg s)]
              else []) \<and>
         target_writes (trace (isr_body quiet v s)) =
           target_writes (trace (isr_top_check quiet v s)) \<and>
         (\<not> top_fires v s \<longrightarrow> hw_target (isr_body quiet v s) = hw_target s)"
  using assms
  by (simp add: isr_body_def rollover_check_idle alarm_check_frame top_check_writes top_check_idle)

theorem handler_target_writes_below_top_witness:
  "(100::u32) \<noteq> TOP_VALUE \<and> top_fires 100 (counts_to 100 with_top) \<and>
   target_writes (trace (isr_body quiet 100 (counts_to 100 with_top))) =
     target_writes (trace with_top) @ [200] \<and>
   (50::u32) \<noteq> TOP_VALUE \<and> \<not> top_fires 50 (counts_to 50 with_alarm) \<and>
   alarm_fires 50 (counts_to 50 with_alarm) \<and>
   hw_target (isr_body quiet 50 (counts_to 50 with_alarm)) = 50 \<and>
   target_writes (trace (isr_body quiet 50 (counts_to 50 with_alarm))) =
     target_writes (trace with_alarm)"
proof -
  have n: "(100::u32) \<noteq> TOP_VALUE" "(50::u32) \<noteq> TOP_VALUE" by (simp_all add: TOP_VALUE_def)
  have t: "top_fires 100 (counts_to 100 with_top)" "top_ticks (top_cfg (counts_to 100 with_top)) = 100"
    "trace (counts_to 100 with_top) = trace with_top"
    by (simp_all add: top_fires_def counts_to_def with_top_state power_on_def top100_def)
  have a: "\<not> top_fires 50 (counts_to 50 with_alarm)" "alarm_fires 50 (counts_to 50 with_alarm)"
    "hw_target (counts_to 50 with_alarm) = 50" "trace (counts_to 50 with_alarm) = trace with_alarm"
    by (simp_all add: top_fires_def alarm_fires_def counts_to_def with_alarm_state with_top_state
        power_on_def top100_def alarm_at_def)
  from handler_target_writes_below_top [OF n(1), of "counts_to 100 with_top"]
    handler_target_writes_below_top [OF n(2), of "counts_to 50 with_alarm"] n t a
  show ?thesis by simp
qed

text \<open>
  The top check does write the target below \<^verbatim>\<open>TOP_VALUE\<close>: with the top of period 100 due at
  100, the step at snapshot 100 moves the target from 100 to 200.
\<close>

theorem top_check_writes_target_counterexample:
  "(100::u32) \<noteq> TOP_VALUE \<and>
   hw_target (counts_to 100 with_top) = 100 \<and>
   hw_target (isr_top_check quiet 100 (counts_to 100 with_top)) = 200 \<and>
   target_writes (trace (isr_top_check quiet 100 (counts_to 100 with_top))) \<noteq>
     target_writes (trace (counts_to 100 with_top))"
  by (simp add: with_top_state counts_to_def isr_defs power_on_def top100_def hw_defs TOP_VALUE_def)

section \<open>Top and alarm due at the same tick\<close>

text \<open>
  C4 (as the driver has it). A top is active, an alarm is pending, and the alarm tick equals
  \<open>last_top + P\<close>, which is also the counter value. If the callbacks do not call back into
  the driver, one run of the handler calls the top callback and then the alarm callback
  (each if it is not \<^verbatim>\<open>NULL\<close>), in this order and nothing else, and the alarm is no longer
  pending. A further run of the handler body at any snapshot \<open>w\<close> calls no alarm callback,
  and calls the top callback only at \<open>w = v + P\<close>, the tick of the next period; at the same
  snapshot \<open>v\<close> it calls nothing unless the period is 0.
\<close>

theorem coinciding_top_and_alarm:
  assumes "is_top_set s" and "is_alarm_pending s"
    and "alarm_ticks (pending_alarm s) = last_top s + top_ticks (top_cfg s)"
    and "hw_value s = last_top s + top_ticks (top_cfg s)"
  shows "calls (trace (counter_isr quiet s)) =
           calls (trace s) @ top_calls s @ alarm_calls (hw_value s) s \<and>
         \<not> is_alarm_pending (counter_isr quiet s) \<and>
         calls (trace (isr_body quiet w (counter_isr quiet s))) =
           calls (trace (counter_isr quiet s)) @
             (if w = hw_value s + top_ticks (top_cfg s) then top_calls s else []) \<and>
         (top_ticks (top_cfg s) \<noteq> 0 \<longrightarrow>
            calls (trace (isr_body quiet (hw_value s) (counter_isr quiet s))) =
              calls (trace (counter_isr quiet s)))"
proof -
  let ?v = "hw_value s"
  let ?s' = "counter_isr quiet s"
  have s': "?s' = isr_body quiet ?v s" by (simp add: counter_isr_def hw_counter_get_value_def)
  from assms have tf: "top_fires ?v s" by (simp add: top_fires_def)
  from assms have af: "alarm_fires ?v s" by (simp add: alarm_fires_def)
  have first: "calls (trace ?s') = calls (trace s) @ top_calls s @ alarm_calls ?v s"
    using tf af by (simp add: s' body_calls)
  have np: "\<not> is_alarm_pending ?s'" using af by (simp add: s' body_pending)
  have tc: "top_calls ?s' = top_calls s" by (simp add: top_calls_def s' body_top split: option.splits)
  have tf': "top_fires w ?s' \<longleftrightarrow> w = ?v + top_ticks (top_cfg s)" for w
    using assms(1) tf by (simp add: top_fires_def s' body_top)
  have af': "\<not> alarm_fires w ?s'" for w using np by (simp add: alarm_fires_def)
  have again: "calls (trace (isr_body quiet w ?s')) =
      calls (trace ?s') @ (if w = ?v + top_ticks (top_cfg s) then top_calls s else [])" for w
    by (simp add: body_calls [of w ?s'] tf' af' tc)
  from first np again [of w] again [of ?v] show ?thesis by simp
qed

theorem coinciding_top_and_alarm_witness:
  "is_top_set alarm_on_top \<and> is_alarm_pending alarm_on_top \<and>
   alarm_ticks (pending_alarm alarm_on_top) = last_top alarm_on_top + top_ticks (top_cfg alarm_on_top) \<and>
   hw_value alarm_on_top = last_top alarm_on_top + top_ticks (top_cfg alarm_on_top) \<and>
   calls (trace alarm_on_top) = [] \<and>
   calls (trace (counter_isr quiet alarm_on_top)) = [TopCall 1 7, AlarmCall 2 0 100 9] \<and>
   \<not> is_alarm_pending (counter_isr quiet alarm_on_top) \<and>
   calls (trace (isr_body quiet 100 (counter_isr quiet alarm_on_top))) =
     [TopCall 1 7, AlarmCall 2 0 100 9]"
proof -
  let ?s = alarm_on_top
  have pre: "is_top_set ?s" "is_alarm_pending ?s"
    "alarm_ticks (pending_alarm ?s) = last_top ?s + top_ticks (top_cfg ?s)"
    "hw_value ?s = last_top ?s + top_ticks (top_cfg ?s)"
    by (simp_all add: alarm_on_top_state with_top_state power_on_def top100_def alarm_at_def)
  have vals: "hw_value ?s = 100" "top_ticks (top_cfg ?s) = 100" "calls (trace ?s) = []"
    "top_calls ?s = [TopCall 1 7]" "alarm_calls 100 ?s = [AlarmCall 2 0 100 9]"
    by (simp_all add: alarm_on_top_state with_top_state power_on_def top100_def alarm_at_def
        top_calls_def alarm_calls_def TOP_VALUE_def)
  from coinciding_top_and_alarm [OF pre, of 100] pre vals show ?thesis by simp
qed

text \<open>
  Without the proviso the alarm callback may not be called. The handler runs the top callback
  first, and the alarm check reads the pending flag after it: a top callback that calls
  \<^verbatim>\<open>ctr_cancel_alarm\<close> leaves nothing for the alarm check to fire.
\<close>

theorem reentering_top_callback_counterexample:
  "is_top_set alarm_on_top \<and> is_alarm_pending alarm_on_top \<and>
   alarm_ticks (pending_alarm alarm_on_top) = last_top alarm_on_top + top_ticks (top_cfg alarm_on_top) \<and>
   hw_value alarm_on_top = last_top alarm_on_top + top_ticks (top_cfg alarm_on_top) \<and>
   alarm_callback (pending_alarm alarm_on_top) = Some 2 \<and>
   calls (trace alarm_on_top) = [] \<and>
   calls (trace (counter_isr cancelling alarm_on_top)) = [TopCall 1 7]"
  by (simp add: alarm_on_top_state with_top_state power_on_def top100_def alarm_at_def
      counter_isr_def isr_body_def isr_top_check_def isr_alarm_check_def isr_rollover_check_def
      invoke_def cancelling_def ctr_cancel_alarm_def hw_defs TOP_VALUE_def
      DRIVER_CONFIG_INFO_CHANNELS_def)

section \<open>The rollover branch\<close>

text \<open>
  The counter is at \<^verbatim>\<open>TOP_VALUE\<close>, neither condition of the handler holds there, and
  \<^verbatim>\<open>next_top\<close> of an active top holds the tick at which the top is due, \<open>last_top + P\<close>.
  Then, whatever the callbacks are, the handler resets the register to 0 and programs: with
  an alarm pending at distance \<open>d1\<close> and a top active at distance \<open>d2\<close> the tick
  \<open>TOP_VALUE + min d1 d2\<close>; with only the alarm its tick; with only the top its due tick;
  with neither \<^verbatim>\<open>TOP_VALUE\<close>.
\<close>

lemma rollover_retarget_stored:
  assumes "hw_value s = TOP_VALUE"
    and "\<not> top_fires TOP_VALUE s" and "\<not> alarm_fires TOP_VALUE s"
    and "is_top_set s \<longrightarrow> next_top s = last_top s + top_ticks (top_cfg s)"
  shows "hw_value (counter_isr run s) = 0 \<and>
         hw_target (counter_isr run s) =
           (if is_alarm_pending s \<and> is_top_set s
            then TOP_VALUE + min (dist TOP_VALUE (alarm_ticks (pending_alarm s)))
                                 (dist TOP_VALUE (last_top s + top_ticks (top_cfg s)))
            else if is_alarm_pending s then alarm_ticks (pending_alarm s)
            else if is_top_set s then last_top s + top_ticks (top_cfg s)
            else TOP_VALUE)"
proof -
  have s': "counter_isr run s = isr_rollover_check TOP_VALUE s"
    using assms(1-3)
    by (simp add: counter_isr_def hw_counter_get_value_def isr_body_def top_check_idle
        alarm_check_idle)
  have due: "next_top s = last_top s + top_ticks (top_cfg s)" if "is_top_set s"
    using that assms(4) by simp
  have both: "TOP_VALUE + min (dist TOP_VALUE (alarm_ticks (pending_alarm s)))
                              (dist TOP_VALUE (last_top s + top_ticks (top_cfg s))) =
              MIN_u32 (alarm_ticks (pending_alarm s)) (last_top s + top_ticks (top_cfg s))"
    if "is_alarm_pending s" and "is_top_set s"
  proof (rule min_from_top)
    from that(1) assms(3) show "alarm_ticks (pending_alarm s) \<noteq> TOP_VALUE"
      by (auto simp: alarm_fires_def)
    from that(2) assms(2) show "last_top s + top_ticks (top_cfg s) \<noteq> TOP_VALUE"
      by (auto simp: top_fires_def)
  qed
  show ?thesis using both due by (simp add: s' rollover_check_top)
qed

lemma rollover_retarget_stored_example:
  "hw_value before_rollover = TOP_VALUE \<and>
   \<not> top_fires TOP_VALUE before_rollover \<and> \<not> alarm_fires TOP_VALUE before_rollover \<and>
   is_top_set before_rollover \<and> is_alarm_pending before_rollover \<and>
   next_top before_rollover = last_top before_rollover + top_ticks (top_cfg before_rollover) \<and>
   dist TOP_VALUE (alarm_ticks (pending_alarm before_rollover)) = 51 \<and>
   dist TOP_VALUE (last_top before_rollover + top_ticks (top_cfg before_rollover)) = 201 \<and>
   hw_value (counter_isr quiet before_rollover) = 0 \<and>
   hw_target (counter_isr quiet before_rollover) = 50"
proof -
  let ?s = before_rollover
  have pre: "hw_value ?s = TOP_VALUE" "\<not> top_fires TOP_VALUE ?s" "\<not> alarm_fires TOP_VALUE ?s"
    "is_top_set ?s \<longrightarrow> next_top ?s = last_top ?s + top_ticks (top_cfg ?s)"
    by (simp_all add: before_rollover_state after_first_top_state with_top_state power_on_def
        top100_def alarm_at_def top_fires_def alarm_fires_def TOP_VALUE_def)
  have vals: "is_top_set ?s" "is_alarm_pending ?s"
    "last_top ?s + top_ticks (top_cfg ?s) = 200" "next_top ?s = 200"
    "alarm_ticks (pending_alarm ?s) = 50"
    by (simp_all add: before_rollover_state after_first_top_state with_top_state power_on_def
        top100_def alarm_at_def)
  have d: "dist TOP_VALUE 50 = 51" "dist TOP_VALUE 200 = 201" "TOP_VALUE + min 51 201 = 50"
    by (simp_all add: dist_def TOP_VALUE_def)
  from rollover_retarget_stored [OF pre, of quiet] pre vals d show ?thesis by simp
qed

text \<open>
  C5. At \<^verbatim>\<open>TOP_VALUE\<close> with neither event firing, an alarm pending at distance \<open>d1\<close> and a
  top due at distance \<open>d2\<close>, the handler should reset the register and program
  \<open>TOP_VALUE + min d1 d2\<close>. The driver does not: \<^verbatim>\<open>ctr_set_top_value\<close> arms the target
  \<open>v + P\<close> but never stores it in \<^verbatim>\<open>next_top\<close>, which only the top branch of the handler
  writes, and the rollover branch reads \<^verbatim>\<open>next_top\<close>. Until the first top event it reads a
  stale value. Here the alarm is due at tick 2 (distance 3) and the top at
  \<open>last_top + P = 4\<close> (distance 5), \<^verbatim>\<open>next_top\<close> is still 0, and the handler programs
  \<open>MIN(2, 0) = 0\<close> instead of 2.
\<close>

theorem rollover_programs_stale_next_top:
  "hw_value stale_rollover = TOP_VALUE \<and>
   is_alarm_pending stale_rollover \<and> is_top_set stale_rollover \<and>
   alarm_ticks (pending_alarm stale_rollover) = 2 \<and>
   last_top stale_rollover + top_ticks (top_cfg stale_rollover) = 4 \<and>
   next_top stale_rollover = 0 \<and>
   dist TOP_VALUE (alarm_ticks (pending_alarm stale_rollover)) = 3 \<and>
   dist TOP_VALUE (last_top stale_rollover + top_ticks (top_cfg stale_rollover)) = 5 \<and>
   TOP_VALUE + min 3 5 = 2 \<and>
   hw_value (counter_isr quiet stale_rollover) = 0 \<and>
   hw_target (counter_isr quiet stale_rollover) = 0"
  by (simp add: stale_rollover_state running_state power_on_def top_wrapping_def alarm_at_def
      isr_defs hw_defs dist_def MIN_u32_def TOP_VALUE_def)

section \<open>The top step keeps the epoch\<close>

text \<open>
  C6 (as the driver has it). A top of period \<open>P\<close> is active and the snapshot is
  \<open>v = last_top + P\<close>. After the top check, whatever the top callback does, \<^verbatim>\<open>last_top\<close> is
  the snapshot \<open>v\<close>, \<^verbatim>\<open>next_top\<close> is \<open>v\<close> plus the period that is stored when the callback
  has returned, modulo \<open>2 ^ 32\<close>, and the top flag and the configuration are as the
  callback left them: the step itself does not clear the top. If the callbacks do not call
  back into the driver, \<^verbatim>\<open>next_top\<close> is \<open>v + P\<close>, the top stays set and its configuration is
  unchanged, after the top check and after the whole handler body.
\<close>

theorem top_step_updates_epoch:
  assumes "is_top_set s" and "v = last_top s + top_ticks (top_cfg s)"
  shows "last_top (isr_top_check run v s) = v \<and>
         next_top (isr_top_check run v s) = v + top_ticks (top_cfg (after_top_callback run s)) \<and>
         is_top_set (isr_top_check run v s) = is_top_set (after_top_callback run s) \<and>
         top_cfg (isr_top_check run v s) = top_cfg (after_top_callback run s) \<and>
         next_top (isr_top_check quiet v s) = v + top_ticks (top_cfg s) \<and>
         is_top_set (isr_top_check quiet v s) \<and>
         top_cfg (isr_top_check quiet v s) = top_cfg s \<and>
         last_top (isr_body quiet v s) = v \<and>
         next_top (isr_body quiet v s) = v + top_ticks (top_cfg s) \<and>
         is_top_set (isr_body quiet v s) \<and>
         top_cfg (isr_body quiet v s) = top_cfg s"
proof -
  from assms have f: "top_fires v s" by (simp add: top_fires_def)
  then show ?thesis
    using assms(1)
    by (simp add: top_check_last_top top_check_general top_check_epoch top_check_frame body_top)
qed

theorem top_step_updates_epoch_witness:
  "is_top_set (counts_to 100 with_top) \<and>
   (100::u32) = last_top (counts_to 100 with_top) + top_ticks (top_cfg (counts_to 100 with_top)) \<and>
   hw_value (counts_to 100 with_top) = 100 \<and>
   last_top (counter_isr quiet (counts_to 100 with_top)) = 100 \<and>
   next_top (counter_isr quiet (counts_to 100 with_top)) = 200 \<and>
   is_top_set (counter_isr quiet (counts_to 100 with_top)) \<and>
   top_ticks (top_cfg (after_top_callback retuning (counts_to 100 with_top))) = 30 \<and>
   last_top (isr_top_check retuning 100 (counts_to 100 with_top)) = 100 \<and>
   next_top (isr_top_check retuning 100 (counts_to 100 with_top)) = 130 \<and>
   is_top_set (isr_top_check retuning 100 (counts_to 100 with_top))"
proof -
  let ?s = "counts_to 100 with_top"
  have pre: "is_top_set ?s" "(100::u32) = last_top ?s + top_ticks (top_cfg ?s)"
    by (simp_all add: counts_to_def with_top_state power_on_def top100_def)
  have v: "hw_value ?s = 100" by (simp add: counts_to_def)
  have p: "top_ticks (top_cfg ?s) = 100"
    by (simp add: counts_to_def with_top_state power_on_def top100_def)
  have r: "top_ticks (top_cfg (after_top_callback retuning ?s)) = 30"
    "is_top_set (after_top_callback retuning ?s)"
    by (simp_all add: after_top_callback_def invoke_def retuning_def ctr_set_top_value_def
        store_top_def counts_to_def with_top_state power_on_def top100_def top30_def hw_defs
        TOP_VALUE_def COUNTER_TOP_CFG_DONT_RESET_def)
  from top_step_updates_epoch [OF pre, of quiet] top_step_updates_epoch [OF pre, of retuning]
    pre v p r
  show ?thesis
    by (simp add: counter_isr_def hw_counter_get_value_def)
qed

text \<open>
  With a top callback that sets a new top of period 30, \<^verbatim>\<open>next_top\<close> after the step is 130,
  not the 200 that the period at entry gives.
\<close>

theorem retuning_top_callback_counterexample:
  "is_top_set (counts_to 100 with_top) \<and>
   hw_value (counts_to 100 with_top) = 100 \<and>
   last_top (counts_to 100 with_top) + top_ticks (top_cfg (counts_to 100 with_top)) = 100 \<and>
   top_ticks (top_cfg (counts_to 100 with_top)) = 100 \<and>
   next_top (isr_top_check retuning 100 (counts_to 100 with_top)) = 130 \<and>
   next_top (counter_isr retuning (counts_to 100 with_top)) = 130"
  by (simp add: counts_to_def with_top_state power_on_def top100_def top30_def
      counter_isr_def isr_body_def isr_top_check_def isr_alarm_check_def isr_rollover_check_def
      invoke_def retuning_def ctr_set_top_value_def store_top_def hw_defs TOP_VALUE_def
      COUNTER_TOP_CFG_DONT_RESET_def)

section \<open>Mutual exclusion with a pending alarm\<close>

text \<open>
  C7. While an alarm is pending, \<^verbatim>\<open>ctr_set_alarm\<close> on a valid channel and
  \<^verbatim>\<open>ctr_set_top_value\<close> both return \<^verbatim>\<open>-EBUSY\<close> and leave the whole state as it was: the
  stored alarm, the top configuration and the hardware target included.
\<close>

theorem busy_while_alarm_pending:
  assumes "is_alarm_pending s" and "chan_id < DRIVER_CONFIG_INFO_CHANNELS"
  shows "ctr_set_alarm chan_id alarm_cfg s = (Inl EBUSY, s) \<and>
         ctr_set_top_value cfg s = (Inl EBUSY, s)"
  using assms by (simp add: ctr_set_alarm_def ctr_set_top_value_def not_le)

theorem busy_while_alarm_pending_witness:
  "is_alarm_pending with_alarm \<and> (0::u8) < DRIVER_CONFIG_INFO_CHANNELS \<and>
   ctr_set_alarm 0 (alarm_at 60) with_alarm = (Inl EBUSY, with_alarm) \<and>
   ctr_set_top_value top100 with_alarm = (Inl EBUSY, with_alarm)"
proof -
  have pre: "is_alarm_pending with_alarm" "(0::u8) < DRIVER_CONFIG_INFO_CHANNELS"
    by (simp_all add: with_alarm_state DRIVER_CONFIG_INFO_CHANNELS_def)
  from busy_while_alarm_pending [OF pre] pre show ?thesis by simp
qed

section \<open>A top value that comes too late\<close>

text \<open>
  C8. With no alarm pending (the busy check comes first), a configuration that has the
  don't-reset flag set and a period not above the current value makes
  \<^verbatim>\<open>ctr_set_top_value\<close> return \<^verbatim>\<open>-ETIME\<close>. Nothing of the top state is stored and the target
  is not written. The hardware is reset, its register becoming 0, exactly when the
  reset-when-late flag is set as well; otherwise the register keeps its value.
\<close>

theorem set_top_value_too_late:
  assumes "\<not> is_alarm_pending s"
    and "top_flags cfg AND COUNTER_TOP_CFG_DONT_RESET \<noteq> 0"
    and "hw_value s \<ge> top_ticks cfg"
  shows "fst (ctr_set_top_value cfg s) = Inl ETIME \<and>
         top_cfg (snd (ctr_set_top_value cfg s)) = top_cfg s \<and>
         is_top_set (snd (ctr_set_top_value cfg s)) = is_top_set s \<and>
         last_top (snd (ctr_set_top_value cfg s)) = last_top s \<and>
         next_top (snd (ctr_set_top_value cfg s)) = next_top s \<and>
         hw_target (snd (ctr_set_top_value cfg s)) = hw_target s \<and>
         hw_value (snd (ctr_set_top_value cfg s)) =
           (if top_flags cfg AND COUNTER_TOP_CFG_RESET_WHEN_LATE \<noteq> 0 then 0 else hw_value s) \<and>
         trace (snd (ctr_set_top_value cfg s)) =
           trace s @ (if top_flags cfg AND COUNTER_TOP_CFG_RESET_WHEN_LATE \<noteq> 0 then [HwReset] else [])"
  using assms by (simp add: ctr_set_top_value_def hw_defs)

text \<open>
  The scenario of the specification: value \<^verbatim>\<open>TOP_VALUE - 2\<close>, period 5, don't-reset; once
  without and once with reset-when-late.
\<close>

theorem set_top_value_too_late_witness:
  "\<not> is_alarm_pending (counts_to 4294967293 running) \<and>
   top_flags (late_top 1) AND COUNTER_TOP_CFG_DONT_RESET \<noteq> 0 \<and>
   hw_value (counts_to 4294967293 running) \<ge> top_ticks (late_top 1) \<and>
   fst (ctr_set_top_value (late_top 1) (counts_to 4294967293 running)) = Inl ETIME \<and>
   hw_value (snd (ctr_set_top_value (late_top 1) (counts_to 4294967293 running))) = 4294967293 \<and>
   trace (snd (ctr_set_top_value (late_top 1) (counts_to 4294967293 running))) = trace running \<and>
   top_flags (late_top 3) AND COUNTER_TOP_CFG_DONT_RESET \<noteq> 0 \<and>
   fst (ctr_set_top_value (late_top 3) (counts_to 4294967293 running)) = Inl ETIME \<and>
   hw_value (snd (ctr_set_top_value (late_top 3) (counts_to 4294967293 running))) = 0 \<and>
   trace (snd (ctr_set_top_value (late_top 3) (counts_to 4294967293 running))) = trace running @ [HwReset]"
proof -
  let ?s = "counts_to 4294967293 running"
  have s: "\<not> is_alarm_pending ?s" "hw_value ?s = 4294967293" "trace ?s = trace running"
    by (simp_all add: counts_to_def running_state power_on_def)
  have f1: "top_flags (late_top 1) AND COUNTER_TOP_CFG_DONT_RESET \<noteq> 0"
    "top_flags (late_top 1) AND COUNTER_TOP_CFG_RESET_WHEN_LATE = 0"
    "top_ticks (late_top 1) = 5"
    by (simp_all add: late_top_def COUNTER_TOP_CFG_DONT_RESET_def COUNTER_TOP_CFG_RESET_WHEN_LATE_def)
  have f3: "top_flags (late_top 3) AND COUNTER_TOP_CFG_DONT_RESET \<noteq> 0"
    "top_flags (late_top 3) AND COUNTER_TOP_CFG_RESET_WHEN_LATE \<noteq> 0"
    "top_ticks (late_top 3) = 5"
    by (simp_all add: late_top_def COUNTER_TOP_CFG_DONT_RESET_def COUNTER_TOP_CFG_RESET_WHEN_LATE_def)
  have le: "top_ticks (late_top 1) \<le> hw_value ?s" "top_ticks (late_top 3) \<le> hw_value ?s"
    by (simp_all add: s f1 f3)
  from set_top_value_too_late [OF s(1) f1(1) le(1)] set_top_value_too_late [OF s(1) f3(1) le(2)]
    s f1 f3 le
  show ?thesis by simp
qed

section \<open>Cancelling the alarm\<close>

text \<open>
  C9. \<^verbatim>\<open>ctr_cancel_alarm\<close> returns \<^verbatim>\<open>-ENOTSUP\<close> if and only if the channel index is not
  below the number of channels or the hardware counter is not started. In every other case
  it returns 0, the alarm is no longer pending, and neither the hardware target nor the
  trace of hardware writes changes.
\<close>

theorem cancel_alarm_unsupported_iff:
  "(fst (ctr_cancel_alarm chan_id s) = Inl ENOTSUP \<longleftrightarrow>
      \<not> chan_id < DRIVER_CONFIG_INFO_CHANNELS \<or> \<not> hw_counter_is_started s) \<and>
   (fst (ctr_cancel_alarm chan_id s) \<noteq> Inl ENOTSUP \<longrightarrow>
      fst (ctr_cancel_alarm chan_id s) = Inr () \<and>
      \<not> is_alarm_pending (snd (ctr_cancel_alarm chan_id s)) \<and>
      hw_target (snd (ctr_cancel_alarm chan_id s)) = hw_target s \<and>
      trace (snd (ctr_cancel_alarm chan_id s)) = trace s)"
  by (simp add: ctr_cancel_alarm_def not_less)

theorem cancel_alarm_unsupported_iff_witness:
  "fst (ctr_cancel_alarm 0 with_alarm) \<noteq> Inl ENOTSUP \<and>
   fst (ctr_cancel_alarm 0 with_alarm) = Inr () \<and>
   is_alarm_pending with_alarm \<and>
   \<not> is_alarm_pending (snd (ctr_cancel_alarm 0 with_alarm)) \<and>
   hw_target (snd (ctr_cancel_alarm 0 with_alarm)) = 50 \<and>
   fst (ctr_cancel_alarm 1 with_alarm) = Inl ENOTSUP \<and>
   fst (ctr_cancel_alarm 0 (snd (ctr_stop with_alarm))) = Inl ENOTSUP"
proof -
  have st: "hw_counter_is_started with_alarm" "\<not> hw_counter_is_started (snd (ctr_stop with_alarm))"
    "hw_target with_alarm = 50" "is_alarm_pending with_alarm"
    by (simp_all add: hw_defs ctr_stop_def with_alarm_state with_top_state power_on_def)
  have ch: "(0::u8) < DRIVER_CONFIG_INFO_CHANNELS" "\<not> (1::u8) < DRIVER_CONFIG_INFO_CHANNELS"
    by (simp_all add: DRIVER_CONFIG_INFO_CHANNELS_def)
  from cancel_alarm_unsupported_iff [of 0 with_alarm] cancel_alarm_unsupported_iff [of 1 with_alarm]
    cancel_alarm_unsupported_iff [of 0 "snd (ctr_stop with_alarm)"] st ch
  show ?thesis by simp
qed

text \<open>
  C10. On a valid channel with the hardware started, \<^verbatim>\<open>ctr_cancel_alarm\<close> returns 0 whether
  or not an alarm is pending, and a second call right after the first returns the same
  status and the same state as the first.
\<close>

theorem cancel_alarm_idempotent:
  assumes "chan_id < DRIVER_CONFIG_INFO_CHANNELS" and "hw_counter_is_started s"
  shows "fst (ctr_cancel_alarm chan_id s) = Inr () \<and>
         ctr_cancel_alarm chan_id (snd (ctr_cancel_alarm chan_id s)) = ctr_cancel_alarm chan_id s"
  using assms by (simp add: ctr_cancel_alarm_def not_le hw_counter_is_started_def)

theorem cancel_alarm_idempotent_witness:
  "(0::u8) < DRIVER_CONFIG_INFO_CHANNELS \<and> hw_counter_is_started running \<and>
   \<not> is_alarm_pending running \<and>
   fst (ctr_cancel_alarm 0 running) = Inr () \<and>
   ctr_cancel_alarm 0 (snd (ctr_cancel_alarm 0 running)) = ctr_cancel_alarm 0 running"
proof -
  have pre: "(0::u8) < DRIVER_CONFIG_INFO_CHANNELS" "hw_counter_is_started running"
    by (simp_all add: DRIVER_CONFIG_INFO_CHANNELS_def hw_counter_is_started_def running_state)
  have "\<not> is_alarm_pending running" by (simp add: running_state power_on_def)
  with cancel_alarm_idempotent [OF pre] pre show ?thesis by simp
qed

end
